theory Spec2Isabelle
  imports Main "HOL-Library.AList"
begin

section \<open>Python values used by the event service\<close>

text \<open>
  The exceptions the modelled code can raise. \<open>ValueError\<close> is raised by
  \<open>CrontabType\<close> itself; \<open>TypeError\<close>, \<open>AttributeError\<close> and \<open>IndexError\<close> are
  raised by the interpreter and the libraries (an unsupported comparison, joining values
  that are not \<open>str\<close>, an attribute of \<open>None\<close>, \<open>random.choice\<close> of an empty
  sequence); \<open>IntegrityError\<close> is raised by an insert that violates a constraint of the
  table.
\<close>

datatype py_error = ValueError | TypeError | AttributeError | IndexError | IntegrityError

text \<open>
  A Python \<open>str\<close> is a sequence of Unicode code points; the crontab text is kept as the
  list of its code points. \<open>str\<close> turns an Isabelle literal into such a text.
\<close>

type_synonym pystr = "nat list"

definition str :: "string \<Rightarrow> pystr" where
  "str s = map of_char s"

section \<open>CrontabType (models.py, lines 257-280)\<close>

text \<open>
  The class of characters the regular expression \<open>\s\<close> matches on a \<open>str\<close> pattern:
  the code points for which \<open>str.isspace\<close> holds (tab to carriage return, the four
  information separators, space, NEL, no-break space and the Unicode space separators).
\<close>

definition isspace :: "nat \<Rightarrow> bool" where
  "isspace c \<longleftrightarrow>
     (9 \<le> c \<and> c \<le> 13) \<or> (28 \<le> c \<and> c \<le> 32) \<or> c = 133 \<or> c = 160 \<or> c = 5760 \<or>
     (8192 \<le> c \<and> c \<le> 8202) \<or> c = 8232 \<or> c = 8233 \<or> c = 8239 \<or> c = 8287 \<or> c = 12288"

text \<open>
  \<open>re.split(r'\s+', value)\<close>: the text up to the next whitespace character is a piece;
  the whole run of whitespace that follows is the separator and is dropped; the search
  goes on behind it. The text after the last separator (the whole text when there is
  none) is the last piece, so the result is never empty, and a text that starts or ends
  with whitespace gets an empty first or last piece.
\<close>

function re_split_ws :: "pystr \<Rightarrow> pystr list" where
  "re_split_ws s =
     (let piece = takeWhile (\<lambda>c. \<not> isspace c) s;
          rest = dropWhile (\<lambda>c. \<not> isspace c) s
      in if rest = [] then [piece]
         else piece # re_split_ws (dropWhile isspace rest))"
  by pat_completeness auto
termination
proof (relation "measure length")
  show "wf (measure length)" by simp
next
  fix s :: pystr and piece rest
  assume r: "rest = dropWhile (\<lambda>c. \<not> isspace c) s" and ne: "rest \<noteq> []"
  have "isspace (hd rest)"
    using ne hd_dropWhile [of "\<lambda>c. \<not> isspace c" s] unfolding r by simp
  then have "length (dropWhile isspace rest) \<le> length (tl rest)"
    using ne by (cases rest) (auto simp: length_dropWhile_le)
  moreover have "length (tl rest) < length rest" using ne by (cases rest) auto
  moreover have "length rest \<le> length s" unfolding r by (rule length_dropWhile_le)
  ultimately show "(dropWhile isspace rest, s) \<in> measure length" by simp
qed

declare re_split_ws.simps [simp del]

text \<open>\<open>' '.join(values)\<close>.\<close>

fun join_space :: "pystr list \<Rightarrow> pystr" where
  "join_space [] = []"
| "join_space [v] = v"
| "join_space (v # w # vs) = v @ 32 # join_space (w # vs)"

text \<open>The class attribute \<open>keys\<close> (line 259), in the order of the source.\<close>

definition keys :: "string list" where
  "keys = [''minute'', ''hour'', ''day_of_week'', ''day_of_month'', ''month_of_year'']"

text \<open>
  A \<open>dict\<close> keeps its items in insertion order; assigning to a key that is already
  present replaces the value in place. \<open>dict(pairs)\<close> inserts the pairs from left to
  right into the empty dictionary.
\<close>

type_synonym schedule = "(string \<times> pystr) list"

definition dict :: "(string \<times> pystr) list \<Rightarrow> schedule" where
  "dict kvs = foldl (\<lambda>d (k, v). AList.update k v d) [] kvs"

text \<open>
  \<open>process_bind_param\<close> (lines 264-269) is the codec's parse, \<open>process_result_value\<close>
  (lines 271-276) its format. Both return \<open>None\<close> for \<open>None\<close>.
\<close>

definition process_bind_param :: "pystr option \<Rightarrow> py_error + schedule option" where
  "process_bind_param v =
     (case v of
        None \<Rightarrow> Inr None
      | Some s \<Rightarrow>
          (let values = re_split_ws s
           in if length values \<noteq> 5 then Inl ValueError
              else Inr (Some (dict (zip keys values)))))"

definition process_result_value :: "schedule option \<Rightarrow> py_error + pystr option" where
  "process_result_value v =
     (case v of
        None \<Rightarrow> Inr None
      | Some d \<Rightarrow>
          (let values = map snd d
           in if length values \<noteq> 5 then Inl ValueError
              else Inr (Some (join_space values))))"

text \<open>Formatting what parsing returned; an error of the parse is the error of the whole.\<close>

definition format_parse :: "pystr \<Rightarrow> py_error + pystr option" where
  "format_parse s =
     (case process_bind_param (Some s) of
        Inl e \<Rightarrow> Inl e
      | Inr d \<Rightarrow> process_result_value d)"


text \<open>
  A crontab field as the wire format has it: a non-empty text without whitespace.
\<close>

definition crontab_field :: "pystr \<Rightarrow> bool" where
  "crontab_field f \<longleftrightarrow> f \<noteq> [] \<and> list_all (\<lambda>c. \<not> isspace c) f"

text \<open>
  The number of pieces a text falls into when it is cut at its separators, counted on
  the text itself: a separator is a maximal run of whitespace characters (a whitespace
  character that does not follow one starts a run), and a text with \<open>n\<close> separators has
  \<open>n + 1\<close> pieces. A piece before a leading or behind a trailing separator is empty.
\<close>

fun ws_runs :: "bool \<Rightarrow> pystr \<Rightarrow> nat" where
  "ws_runs prev [] = 0"
| "ws_runs prev (c # cs) = (if isspace c \<and> \<not> prev then 1 else 0) + ws_runs (isspace c) cs"

definition field_count :: "pystr \<Rightarrow> nat" where
  "field_count s = Suc (ws_runs False s)"

text \<open>
  The number of whitespace-separated fields of a text, in the words of the
  specification: a field is a maximal run of characters that are not whitespace (a
  character that is not whitespace and does not follow one starts a field).
\<close>

fun field_starts :: "bool \<Rightarrow> pystr \<Rightarrow> nat" where
  "field_starts inside [] = 0"
| "field_starts inside (c # cs) =
     (if \<not> isspace c \<and> \<not> inside then 1 else 0) + field_starts (\<not> isspace c) cs"

definition number_of_fields :: "pystr \<Rightarrow> nat" where
  "number_of_fields s = field_starts False s"

section \<open>Time, the clock and the task queue\<close>

text \<open>
  A \<open>datetime\<close> is the number of microseconds since the epoch, a \<open>timedelta\<close> a number
  of microseconds (Python keeps both exact to the microsecond). A \<open>timedelta\<close> is
  normalised into days, seconds (0 to 86399) and microseconds (0 to 999999) with floor
  division; its attribute \<open>seconds\<close> is the middle component, not the total. It is
  falsy exactly when it is zero.
\<close>

type_synonym datetime = int
type_synonym timedelta = int

definition seconds :: "timedelta \<Rightarrow> int" where
  "seconds d = (d div 1000000) mod 86400"

definition total_seconds :: "timedelta \<Rightarrow> int" where
  "total_seconds d = d div 1000000"

definition truthy :: "timedelta option \<Rightarrow> bool" where
  "truthy d = (case d of None \<Rightarrow> False | Some x \<Rightarrow> x \<noteq> 0)"

text \<open>
  \<open>timezone.now()\<close> is read several times within one operation. The clock is the
  sequence of its readings; the state counts how many have been taken. The state also
  holds what the task queue has been told: the tasks sent with \<open>apply_async\<close>, in order,
  and the task ids handed to \<open>revoke\<close>. A sent task gets a fresh id.

  A task id reaches the code in two forms: the \<open>str\<close> that \<open>apply_async\<close> returns
  (\<open>task.id\<close>), and the \<open>uuid.UUID\<close> object that a \<open>UUIDType\<close> column gives when the
  row is loaded.
\<close>

datatype task_ref = StrId nat | UuidId nat

fun ref_number :: "task_ref \<Rightarrow> nat" where
  "ref_number (StrId n) = n"
| "ref_number (UuidId n) = n"

type_synonym clock = "nat \<Rightarrow> datetime"

record task =
  task_uuid :: nat
  task_name :: string
  task_args :: "nat option"
  countdown :: int

record env =
  ticks :: nat
  sent :: "task list"
  revoked :: "nat list"
  next_uuid :: nat

definition timezone_now :: "clock \<Rightarrow> 'a env_scheme \<Rightarrow> datetime \<times> 'a env_scheme" where
  "timezone_now clk w = (clk (ticks w), w\<lparr>ticks := Suc (ticks w)\<rparr>)"

definition apply_async :: "string \<Rightarrow> nat option \<Rightarrow> int \<Rightarrow> 'a env_scheme \<Rightarrow> nat \<times> 'a env_scheme" where
  "apply_async name arg cd w =
     (next_uuid w,
      w\<lparr>sent := sent w @ [\<lparr>task_uuid = next_uuid w, task_name = name, task_args = arg,
                            countdown = cd\<rparr>],
        next_uuid := Suc (next_uuid w)\<rparr>)"

text \<open>
  \<open>revoke(celery_app, task_id)\<close> is Celery's \<open>celery.worker.control.revoke\<close>: it adds
  the id to the set of revoked ids and then builds its log line with
  \<open>', '.join(task_ids)\<close>, which raises \<open>TypeError\<close> when the id is not a \<open>str\<close>.
\<close>

definition revoke :: "task_ref \<Rightarrow> 'a env_scheme \<Rightarrow> py_error option \<times> 'a env_scheme" where
  "revoke tid w =
     (let w1 = w\<lparr>revoked := revoked w @ [ref_number tid]\<rparr>
      in case tid of
           StrId _ \<Rightarrow> (None, w1)
         | UuidId _ \<Rightarrow> (Some TypeError, w1))"

section \<open>Event (models.py, lines 61-201)\<close>

type_synonym json = string

record event =
  id_ev :: "nat option"
  name_ev :: "string option"
  category_id_ev :: "nat option"
  generator_id :: "nat option"
  created_at :: "datetime option"
  start_at :: datetime
  finish_at :: datetime
  payload :: json
  is_active :: bool
  on_start_task_id :: "task_ref option"
  on_finish_task_id :: "task_ref option"

text \<open>
  The values that meet in the comparison of \<open>Event.active\<close>: a \<open>datetime\<close>, and the
  coroutine object that calling the \<open>async def\<close> method \<open>on_start\<close> returns (the call
  runs nothing of the method's body). \<open>datetime >= other\<close> is defined for another
  \<open>datetime\<close> only; for any other operand the interpreter raises \<open>TypeError\<close>.
\<close>

datatype pyval = PyDateTime datetime | PyCoroutine string

definition on_start :: "event \<Rightarrow> pyval" where
  "on_start self = PyCoroutine ''Event.on_start''"

fun datetime_ge :: "datetime \<Rightarrow> pyval \<Rightarrow> py_error + bool" where
  "datetime_ge t (PyDateTime u) = Inr (u \<le> t)"
| "datetime_ge t (PyCoroutine _) = Inl TypeError"

text \<open>
  \<open>Event.active\<close> (lines 95-97):
  \<open>self.finish_at > timezone.now() >= self.on_start() and self.is_active\<close>.
  The chained comparison reads the clock once, and evaluates \<open>self.on_start()\<close> and the
  second comparison only when the first one holds.
\<close>

definition active :: "clock \<Rightarrow> event \<Rightarrow> 'a env_scheme \<Rightarrow> (py_error + bool) \<times> 'a env_scheme" where
  "active clk self w =
     (let (t, w1) = timezone_now clk w
      in if finish_at self > t
         then (case datetime_ge t (on_start self) of
                 Inl e \<Rightarrow> (Inl e, w1)
               | Inr b \<Rightarrow> (Inr (b \<and> is_active self), w1))
         else (Inr False, w1))"

text \<open>
  \<open>Event.start_in\<close> and \<open>Event.finish_in\<close> (lines 107-115): two readings of the clock
  when the time is not before the first reading, one otherwise; \<open>None\<close> when the
  condition fails.
\<close>

definition start_in :: "clock \<Rightarrow> event \<Rightarrow> 'a env_scheme \<Rightarrow> timedelta option \<times> 'a env_scheme" where
  "start_in clk self w =
     (let (t1, w1) = timezone_now clk w
      in if start_at self \<ge> t1
         then (let (t2, w2) = timezone_now clk w1 in (Some (start_at self - t2), w2))
         else (None, w1))"

definition finish_in :: "clock \<Rightarrow> event \<Rightarrow> 'a env_scheme \<Rightarrow> timedelta option \<times> 'a env_scheme" where
  "finish_in clk self w =
     (let (t1, w1) = timezone_now clk w
      in if finish_at self \<ge> t1
         then (let (t2, w2) = timezone_now clk w1 in (Some (finish_at self - t2), w2))
         else (None, w1))"

text \<open>
  The block of lines 162-165 (and 185-188): \<open>if target.start_in:\<close> evaluates the property
  once, \<open>target.start_in.seconds\<close> a second time; \<open>None.seconds\<close> raises
  \<open>AttributeError\<close>. An operation returns the exception it raised, if any, together
  with the state it left behind.
\<close>

definition schedule_start ::
  "clock \<Rightarrow> event \<Rightarrow> 'a env_scheme \<Rightarrow> py_error option \<times> event \<times> 'a env_scheme" where
  "schedule_start clk target w =
     (let (d1, w1) = start_in clk target w
      in if truthy d1
         then (let (d2, w2) = start_in clk target w1
               in case d2 of
                    None \<Rightarrow> (Some AttributeError, target, w2)
                  | Some d \<Rightarrow>
                      (let (tid, w3) = apply_async ''on_event_start'' (id_ev target) (seconds d) w2
                       in (None, target\<lparr>on_start_task_id := Some (StrId tid)\<rparr>, w3)))
         else (None, target, w1))"

text \<open>The block of lines 167-170 (and 190-193).\<close>

definition schedule_finish ::
  "clock \<Rightarrow> event \<Rightarrow> 'a env_scheme \<Rightarrow> py_error option \<times> event \<times> 'a env_scheme" where
  "schedule_finish clk target w =
     (let (d1, w1) = finish_in clk target w
      in if truthy d1
         then (let (d2, w2) = finish_in clk target w1
               in case d2 of
                    None \<Rightarrow> (Some AttributeError, target, w2)
                  | Some d \<Rightarrow>
                      (let (tid, w3) = apply_async ''on_event_finish'' (id_ev target) (seconds d) w2
                       in (None, target\<lparr>on_finish_task_id := Some (StrId tid)\<rparr>, w3)))
         else (None, target, w1))"

text \<open>\<open>on_event_create\<close>, the \<open>before_insert\<close> listener (lines 155-170).\<close>

definition on_event_create ::
  "clock \<Rightarrow> event \<Rightarrow> 'a env_scheme \<Rightarrow> py_error option \<times> event \<times> 'a env_scheme" where
  "on_event_create clk target w =
     (if \<not> is_active target then (None, target, w)
      else case schedule_start clk target w of
             (Some e, target1, w1) \<Rightarrow> (Some e, target1, w1)
           | (None, target1, w1) \<Rightarrow> schedule_finish clk target1 w1)"

text \<open>
  \<open>on_event_update\<close>, the \<open>before_update\<close> listener (lines 173-193). A task id is truthy
  whenever it is not \<open>None\<close>. A revocation that raises ends the listener; the
  revocations do not touch the event's fields.
\<close>

definition on_event_update ::
  "clock \<Rightarrow> event \<Rightarrow> 'a env_scheme \<Rightarrow> py_error option \<times> event \<times> 'a env_scheme" where
  "on_event_update clk target w =
     (case (case on_start_task_id target of
              Some tid \<Rightarrow> revoke tid w
            | None \<Rightarrow> (None, w)) of
        (Some e, w1) \<Rightarrow> (Some e, target, w1)
      | (None, w1) \<Rightarrow>
          (case (case on_finish_task_id target of
                   Some tid \<Rightarrow> revoke tid w1
                 | None \<Rightarrow> (None, w1)) of
             (Some e, w2) \<Rightarrow> (Some e, target, w2)
           | (None, w2) \<Rightarrow>
               (if \<not> is_active target then (None, target, w2)
                else case schedule_start clk target w2 of
                       (Some e, target1, w3) \<Rightarrow> (Some e, target1, w3)
                     | (None, target1, w3) \<Rightarrow> schedule_finish clk target1 w3)))"

text \<open>The ids of the tasks an event's references name, start before finish.\<close>

definition ref_ids :: "event \<Rightarrow> nat list" where
  "ref_ids e =
     (case on_start_task_id e of Some tid \<Rightarrow> [ref_number tid] | None \<Rightarrow> []) @
     (case on_finish_task_id e of Some tid \<Rightarrow> [ref_number tid] | None \<Rightarrow> [])"

text \<open>Whether a reference holds a \<open>uuid.UUID\<close> object.\<close>

fun is_uuid :: "task_ref option \<Rightarrow> bool" where
  "is_uuid (Some (UuidId _)) = True"
| "is_uuid _ = False"

section \<open>EventGenerator (models.py, lines 283-360; tasks.py, lines 30-35)\<close>

record event_generator =
  id_gen :: nat
  name_gen :: string
  pool_id :: "nat option"
  is_active_gen :: bool
  enabled :: bool
  last_run_at_gen :: "datetime option"
  total_run_count_gen :: int
  plan_gen :: "schedule option"
  category_id_gen :: "nat option"
  start_at_gen :: datetime
  finish_at_gen :: datetime
  payload_gen :: json
  task_id_gen :: "nat option"

text \<open>
  The database: the rows of the generator table and of the event table. A loaded object
  is the row at a position of its table; assigning to its attribute and saving it
  replaces the row at that position.
\<close>

record world = env +
  generators :: "event_generator list"
  events :: "event list"

text \<open>
  \<open>Event.create(**kwargs)\<close> is the framework's: it builds the object from the keyword
  arguments and inserts it. The flush runs the \<open>before_insert\<close> listener on the object,
  evaluates the column default \<open>created_at = timezone.now()\<close> and sends the insert. The
  table refuses a row whose \<open>name\<close> is \<open>None\<close> (\<open>nullable=False\<close>, line 65) or is the name
  of a row it already has (\<open>unique=True\<close>) with \<open>IntegrityError\<close>; otherwise the row is
  stored under the next id. When the listener or the insert raises there is no new row.
\<close>

definition Event_create :: "clock \<Rightarrow> event \<Rightarrow> world \<Rightarrow> py_error option \<times> world" where
  "Event_create clk kwargs w =
     (case on_event_create clk kwargs w of
        (Some e, target, w1) \<Rightarrow> (Some e, w1)
      | (None, target, w1) \<Rightarrow>
          (let (t, w2) = timezone_now clk w1
           in if name_ev target = None \<or> name_ev target \<in> set (map name_ev (events w2))
              then (Some IntegrityError, w2)
              else (let row = target\<lparr>id_ev := Some (Suc (length (events w2))),
                                     created_at := Some t\<rparr>
                    in (None, w2\<lparr>events := events w2 @ [row]\<rparr>))))"

text \<open>
  \<open>EventGenerator.run\<close> (lines 305-320) on the generator at position \<open>k\<close> of the table.
\<close>

definition generator_run :: "clock \<Rightarrow> nat \<Rightarrow> bool \<Rightarrow> world \<Rightarrow> py_error option \<times> world" where
  "generator_run clk k is_active_arg w =
     (let (t, w1) = timezone_now clk w;
          self = (generators w1 ! k)\<lparr>last_run_at_gen := Some t\<rparr>;
          self = self\<lparr>total_run_count_gen := total_run_count_gen self + 1\<rparr>;
          w2 = w1\<lparr>generators := (generators w1)[k := self]\<rparr>;
          kwargs = \<lparr>id_ev = None, name_ev = None, category_id_ev = category_id_gen self,
                    generator_id = Some (id_gen self), created_at = None,
                    start_at = start_at_gen self, finish_at = finish_at_gen self,
                    payload = payload_gen self, is_active = is_active_arg,
                    on_start_task_id = None, on_finish_task_id = None\<rparr>
      in Event_create clk kwargs w2)"

text \<open>\<open>EventGenerator.query.get(id_)\<close>: the position of the row with this primary key.\<close>

definition query_get :: "nat \<Rightarrow> event_generator list \<Rightarrow> nat option" where
  "query_get i gs =
     (case filter (\<lambda>k. id_gen (gs ! k) = i) [0..<length gs] of
        [] \<Rightarrow> None
      | k # _ \<Rightarrow> Some k)"

text \<open>
  The handler \<open>_events_generator_run\<close> (tasks.py, lines 30-35): \<open>run\<close> is called with
  its default argument whenever the row exists.
\<close>

definition events_generator_run :: "clock \<Rightarrow> nat \<Rightarrow> world \<Rightarrow> py_error option \<times> world" where
  "events_generator_run clk i w =
     (case query_get i (generators w) of
        None \<Rightarrow> (None, w)
      | Some k \<Rightarrow> generator_run clk k True w)"

section \<open>EventGeneratorPool (models.py, lines 378-451)\<close>

text \<open>
  The value of the column \<open>run_scheme\<close> is a Python object: a \<open>str\<close>, the \<open>Choice\<close>
  (code and label) that a \<open>ChoiceType\<close> column returns on load, or \<open>None\<close>. An object
  has an identity; \<open>a is b\<close> compares identities, not values. The literals \<open>'any'\<close>
  and \<open>'all'\<close> of lines 402 and 404 are two constants of the module.
\<close>

datatype scheme_value = SNone | SStr string | SChoice string string

record pyobj =
  obj_id :: nat
  obj_val :: scheme_value

definition py_is :: "pyobj \<Rightarrow> pyobj \<Rightarrow> bool" where
  "py_is a b \<longleftrightarrow> obj_id a = obj_id b"

definition lit_any :: pyobj where
  "lit_any = \<lparr>obj_id = 0, obj_val = SStr ''any''\<rparr>"

definition lit_all :: pyobj where
  "lit_all = \<lparr>obj_id = 1, obj_val = SStr ''all''\<rparr>"

text \<open>The scheme a value stands for: the text of a \<open>str\<close>, the code of a \<open>Choice\<close>.\<close>

fun scheme_code :: "scheme_value \<Rightarrow> string option" where
  "scheme_code SNone = None"
| "scheme_code (SStr s) = Some s"
| "scheme_code (SChoice c _) = Some c"

record pool =
  id_pool :: nat
  name_pool :: string
  description :: string
  is_active_pool :: bool
  run_scheme :: pyobj
  last_run_at_pool :: "datetime option"
  total_run_count_pool :: int
  plan_pool :: "schedule option"
  task_id_pool :: "nat option"

text \<open>
  The pool's generators with \<open>enabled=True\<close> (line 401), as positions of the generator
  table, in table order.
\<close>

definition enabled_generators :: "pool \<Rightarrow> event_generator list \<Rightarrow> nat list" where
  "enabled_generators self gs =
     filter (\<lambda>k. pool_id (gs ! k) = Some (id_pool self) \<and> enabled (gs ! k)) [0..<length gs]"

text \<open>
  \<open>random.choice(seq)\<close> raises \<open>IndexError\<close> on an empty sequence and returns the
  element at a random index below the length otherwise; \<open>r\<close> is the random draw.
\<close>

definition random_choice :: "nat \<Rightarrow> 'a list \<Rightarrow> py_error + 'a" where
  "random_choice r xs = (if xs = [] then Inl IndexError else Inr (xs ! (r mod length xs)))"

text \<open>The two loops of lines 409-415: \<open>gen.is_active = b; gen.save()\<close> for each \<open>gen\<close>.\<close>

fun set_is_active :: "bool \<Rightarrow> nat list \<Rightarrow> event_generator list \<Rightarrow> event_generator list" where
  "set_is_active b [] gs = gs"
| "set_is_active b (k # ks) gs = set_is_active b ks (gs[k := (gs ! k)\<lparr>is_active_gen := b\<rparr>])"

text \<open>
  \<open>EventGeneratorPool.run\<close> (lines 399-415). The only statement that can raise is
  \<open>random.choice\<close>, before any assignment. The result holds the pool object and the
  generator table as the call leaves them.
\<close>

definition pool_run ::
  "nat \<Rightarrow> pool \<Rightarrow> event_generator list \<Rightarrow> py_error option \<times> pool \<times> event_generator list" where
  "pool_run r self gs =
     (let enabled_gens = enabled_generators self gs;
          prepared =
            (if py_is (run_scheme self) lit_any
             then (case random_choice r enabled_gens of
                     Inl e \<Rightarrow> Inl e
                   | Inr gen \<Rightarrow> Inr [gen])
             else if py_is (run_scheme self) lit_all then Inr enabled_gens
             else Inr [])
      in case prepared of
           Inl e \<Rightarrow> (Some e, self, gs)
         | Inr prepared_generators \<Rightarrow>
             (None, self,
              set_is_active True prepared_generators (set_is_active False enabled_gens gs)))"

text \<open>The generators of a list of positions that are active in a table.\<close>

definition active_among :: "nat list \<Rightarrow> event_generator list \<Rightarrow> nat list" where
  "active_among ks gs = filter (\<lambda>k. is_active_gen (gs ! k)) ks"

section \<open>Concrete data for the evaluations\<close>

text \<open>A clock that stands still at \<open>t\<close>, and a task queue nothing has been sent to.\<close>

definition clock_at :: "datetime \<Rightarrow> clock" where
  "clock_at t k = t"

definition env0 :: env where
  "env0 = \<lparr>ticks = 0, sent = [], revoked = [], next_uuid = 0\<rparr>"

text \<open>
  An active event that has not been inserted yet (no id, no task ids), and the same
  event starting one day and five seconds, finishing two days and five seconds after
  time 0.
\<close>

definition event0 :: event where
  "event0 = \<lparr>id_ev = None, name_ev = Some ''launch'', category_id_ev = None,
             generator_id = None, created_at = None, start_at = 0, finish_at = 10,
             payload = ''{}'', is_active = True, on_start_task_id = None,
             on_finish_task_id = None\<rparr>"

definition far_event :: event where
  "far_event = event0\<lparr>start_at := 86405000000, finish_at := 172805000000\<rparr>"

text \<open>
  \<open>far_event\<close> after its create at time 0 has stored the ids of its two tasks, made
  inactive in the same session.
\<close>

definition stopped_event :: event where
  "stopped_event =
     far_event\<lparr>on_start_task_id := Some (StrId 0), on_finish_task_id := Some (StrId 1),
               is_active := False\<rparr>"

text \<open>The task queue after \<open>far_event\<close> has been created at time 0.\<close>

definition env_scheduled :: env where
  "env_scheduled =
     \<lparr>ticks = 8,
      sent = [\<lparr>task_uuid = 0, task_name = ''on_event_start'', task_args = None, countdown = 5\<rparr>,
              \<lparr>task_uuid = 1, task_name = ''on_event_finish'', task_args = None, countdown = 5\<rparr>],
      revoked = [], next_uuid = 2\<rparr>"

text \<open>
  A generator with the column defaults, a pool as loaded from the database (its
  \<open>run_scheme\<close> is the \<open>Choice\<close> object the column type builds, not the literal of the
  module), three enabled members of the pool, and an enabled and a disabled member.
\<close>

definition gen0 :: event_generator where
  "gen0 = \<lparr>id_gen = 0, name_gen = ''generator'', pool_id = Some 1, is_active_gen = True,
           enabled = True, last_run_at_gen = None, total_run_count_gen = 0, plan_gen = None,
           category_id_gen = None, start_at_gen = 0, finish_at_gen = 0, payload_gen = ''{}'',
           task_id_gen = None\<rparr>"

definition loaded_pool :: pool where
  "loaded_pool = \<lparr>id_pool = 1, name_pool = ''pool'', description = ''a pool'',
                  is_active_pool = True,
                  run_scheme = \<lparr>obj_id = 7, obj_val = SChoice ''any'' ''Any''\<rparr>,
                  last_run_at_pool = None, total_run_count_pool = 0, plan_pool = None,
                  task_id_pool = None\<rparr>"

definition three_generators :: "event_generator list" where
  "three_generators = [gen0\<lparr>id_gen := 1\<rparr>, gen0\<lparr>id_gen := 2\<rparr>, gen0\<lparr>id_gen := 3\<rparr>]"

definition mixed_generators :: "event_generator list" where
  "mixed_generators = [gen0\<lparr>id_gen := 1\<rparr>, gen0\<lparr>id_gen := 2, enabled := False\<rparr>]"

text \<open>A database whose only generator, with id 1, is disabled and has never run.\<close>

definition disabled_world :: world where
  "disabled_world =
     \<lparr>ticks = 0, sent = [], revoked = [], next_uuid = 0,
      generators = [gen0\<lparr>id_gen := 1, pool_id := None, enabled := False,
                         start_at_gen := 10000000, finish_at_gen := 20000000\<rparr>],
      events = []\<rparr>"

section \<open>Properties of the crontab codec\<close>

subsection \<open>Splitting and joining\<close>

lemma re_split_ws_plain:
  "list_all (\<lambda>c. \<not> isspace c) f \<Longrightarrow> re_split_ws f = [f]"
  by (subst re_split_ws.simps) (simp add: list_all_iff)

lemma re_split_ws_sep:
  assumes "list_all (\<lambda>c. \<not> isspace c) f" "isspace c"
  shows "re_split_ws (f @ c # t) = f # re_split_ws (dropWhile isspace t)"
proof -
  have "takeWhile (\<lambda>c. \<not> isspace c) (f @ c # t) = f"
    using assms by (simp add: list_all_iff)
  moreover have "dropWhile (\<lambda>c. \<not> isspace c) (f @ c # t) = c # t"
    using assms by (simp add: list_all_iff)
  ultimately show ?thesis
    using assms(2) by (subst re_split_ws.simps) simp
qed

lemma isspace_32: "isspace 32"
  by (simp add: isspace_def)

lemma join_space_starts:
  "crontab_field f \<Longrightarrow> dropWhile isspace (join_space (f # fs)) = join_space (f # fs)"
  by (cases f; cases fs) (auto simp: crontab_field_def)

lemma re_split_ws_join:
  "fs \<noteq> [] \<Longrightarrow> list_all crontab_field fs \<Longrightarrow> re_split_ws (join_space fs) = fs"
proof (induction fs rule: join_space.induct)
  case 1
  then show ?case by simp
next
  case (2 v)
  then show ?case by (simp add: re_split_ws_plain crontab_field_def)
next
  case (3 v w vs)
  from 3 have "re_split_ws (join_space (w # vs)) = w # vs" by simp
  moreover from 3 have "list_all (\<lambda>c. \<not> isspace c) v" "crontab_field w"
    by (simp_all add: crontab_field_def)
  ultimately show ?case
    by (simp add: re_split_ws_sep isspace_32 join_space_starts)
qed

lemma dict_zip_keys:
  "dict (zip keys [a, b, c, d, e]) =
     [(''minute'', a), (''hour'', b), (''day_of_week'', c), (''day_of_month'', d),
      (''month_of_year'', e)]"
  by (simp add: dict_def keys_def)

lemma length_5:
  "length xs = 5 \<Longrightarrow> \<exists>a b c d e. xs = [a, b, c, d, e]"
  by (auto simp: length_Suc_conv eval_nat_numeral)

subsection \<open>Counting fields\<close>

lemma ws_runs_True_drop: "ws_runs True r = ws_runs False (dropWhile isspace r)"
  by (induction r) auto

lemma ws_runs_plain:
  "list_all (\<lambda>c. \<not> isspace c) f \<Longrightarrow> ws_runs False (f @ t) = ws_runs False t"
  by (induction f) auto

lemma length_re_split_ws: "length (re_split_ws s) = field_count s"
proof (induction s rule: re_split_ws.induct)
  case (1 s)
  define piece where "piece = takeWhile (\<lambda>c. \<not> isspace c) s"
  define rest where "rest = dropWhile (\<lambda>c. \<not> isspace c) s"
  have s: "s = piece @ rest" by (simp add: piece_def rest_def)
  have plain: "list_all (\<lambda>c. \<not> isspace c) piece"
    unfolding piece_def list_all_iff by (auto dest: set_takeWhileD)
  have fc: "field_count s = Suc (ws_runs False rest)"
    unfolding field_count_def by (subst s) (simp add: ws_runs_plain [OF plain])
  show ?case
  proof (cases "rest = []")
    case True
    then show ?thesis using fc
      by (subst re_split_ws.simps) (simp add: rest_def [symmetric])
  next
    case False
    then obtain c r where cr: "rest = c # r" by (cases rest) auto
    have sp: "isspace c"
      using hd_dropWhile [of "\<lambda>c. \<not> isspace c" s] False cr by (simp add: rest_def [symmetric])
    have ih: "length (re_split_ws (dropWhile isspace rest)) = field_count (dropWhile isspace rest)"
      using 1 [OF piece_def rest_def False] .
    have "length (re_split_ws s) = Suc (length (re_split_ws (dropWhile isspace rest)))"
      using False by (subst re_split_ws.simps) (simp add: rest_def [symmetric] piece_def [symmetric])
    also have "\<dots> = Suc (field_count (dropWhile isspace r))"
      using ih sp cr by simp
    also have "\<dots> = field_count s"
      using fc cr sp by (simp add: field_count_def ws_runs_True_drop)
    finally show ?thesis .
  qed
qed

subsection \<open>The claims about the codec\<close>

lemma format_parse_join_space:
  assumes "length fs = 5" and "list_all crontab_field fs"
  shows "format_parse (join_space fs) = Inr (Some (join_space fs))"
proof -
  from assms(1) obtain a b c d e where fs: "fs = [a, b, c, d, e]"
    using length_5 by blast
  have "re_split_ws (join_space fs) = fs"
    using assms by (intro re_split_ws_join) auto
  then show ?thesis
    unfolding format_parse_def process_bind_param_def process_result_value_def
    by (simp add: fs dict_zip_keys)
qed

text \<open>
  Claim C4. For every crontab text that consists of exactly five fields (each non-empty
  and free of whitespace) with a single space (code point 32) between neighbours,
  formatting the parsed schedule gives the text back:
  \<open>process_result_value (process_bind_param s) = s\<close>.
\<close>

theorem crontab_round_trip:
  assumes "crontab_field a" and "crontab_field b" and "crontab_field c"
    and "crontab_field d" and "crontab_field e"
  shows "format_parse (a @ 32 # b @ 32 # c @ 32 # d @ 32 # e) =
           Inr (Some (a @ 32 # b @ 32 # c @ 32 # d @ 32 # e))"
  using assms format_parse_join_space [of "[a, b, c, d, e]"] by simp

theorem crontab_round_trip_witness:
  "crontab_field (str ''0'') \<and> crontab_field (str ''12'') \<and> crontab_field (str ''*'') \<and>
   crontab_field (str ''*/2'') \<and> crontab_field (str ''1-5'') \<and>
   format_parse (str ''0 12 * */2 1-5'') = Inr (Some (str ''0 12 * */2 1-5''))"
proof -
  have h: "crontab_field (str ''0'')" "crontab_field (str ''12'')" "crontab_field (str ''*'')"
    "crontab_field (str ''*/2'')" "crontab_field (str ''1-5'')"
    by (simp_all add: crontab_field_def str_def isspace_def)
  have j: "str ''0'' @ 32 # str ''12'' @ 32 # str ''*'' @ 32 # str ''*/2'' @ 32 # str ''1-5'' =
           str ''0 12 * */2 1-5''"
    by (simp add: str_def)
  show ?thesis
    using h crontab_round_trip [OF h] by (simp only: j simp_thms)
qed

text \<open>
  What the parse accepts: exactly the texts that fall into five pieces, and it stores
  the pieces as they are.
\<close>

lemma process_bind_param_pieces:
  "process_bind_param (Some s) =
     (if field_count s = 5 then Inr (Some (dict (zip keys (re_split_ws s))))
      else Inl ValueError)"
  by (simp add: process_bind_param_def length_re_split_ws)

text \<open>
  Pieces and fields: every field is a piece, and there is one empty piece more for
  leading whitespace and one more for trailing whitespace or an empty text.
\<close>

lemma ws_runs_True:
  "ws_runs False s = ws_runs True s + (if s \<noteq> [] \<and> isspace (hd s) then 1 else 0)"
  by (cases s) auto

lemma field_starts_ws_runs:
  "field_starts (\<not> b) cs + (if (if cs = [] then b else isspace (last cs)) then 1 else 0) =
   ws_runs b cs + (if b then 1 else 0)"
proof (induction cs arbitrary: b)
  case Nil
  then show ?case by simp
next
  case (Cons c cs)
  from Cons [of "isspace c"] show ?case
    by (cases b; cases "isspace c"; cases "cs = []") simp_all
qed

lemma field_count_number_of_fields:
  "field_count s =
     number_of_fields s + (if s = [] \<or> isspace (last s) then 1 else 0) +
     (if s \<noteq> [] \<and> isspace (hd s) then 1 else 0)"
proof -
  have "field_starts False s + (if s = [] \<or> isspace (last s) then 1 else 0) = ws_runs True s + 1"
    using field_starts_ws_runs [of True s] by (cases "s = []") simp_all
  then show ?thesis
    unfolding field_count_def number_of_fields_def
    by (subst ws_runs_True) (simp split: if_splits)
qed

text \<open>
  On a text that neither starts nor ends with whitespace the parse raises exactly when
  the number of fields is not 5.
\<close>

lemma process_bind_param_trimmed:
  assumes "s \<noteq> []" and "\<not> isspace (hd s)" and "\<not> isspace (last s)"
  shows "process_bind_param (Some s) = Inl ValueError \<longleftrightarrow> number_of_fields s \<noteq> 5"
  using assms by (simp add: process_bind_param_pieces field_count_number_of_fields)

lemma process_bind_param_examples:
  "process_bind_param (Some (str ''a b c d e'')) =
     Inr (Some [(''minute'', str ''a''), (''hour'', str ''b''), (''day_of_week'', str ''c''),
                (''day_of_month'', str ''d''), (''month_of_year'', str ''e'')]) \<and>
   process_bind_param (Some (str ''* * *'')) = Inl ValueError"
proof -
  have s1: "re_split_ws (str ''a b c d e'') = [str ''a'', str ''b'', str ''c'', str ''d'', str ''e'']"
    by (simp add: re_split_ws.simps str_def isspace_def)
  have c1: "field_count (str ''a b c d e'') = 5"
    by (simp add: field_count_def str_def isspace_def)
  have c2: "field_count (str ''* * *'') = 3"
    by (simp add: field_count_def str_def isspace_def)
  show ?thesis
    by (simp add: process_bind_param_pieces c1 c2 s1 dict_zip_keys)
qed

text \<open>
  Claim C5 (the code departs from it). The claim: the parse raises if and only if the
  number of whitespace-separated fields is not 5, and every text with exactly 5 fields
  is accepted. The text \<open>1 2 3 4\<close> with a leading space has 4 fields; it is accepted, with
  the empty text as its minute. The text \<open>1 2 3 4 5\<close> with a trailing space has 5 fields;
  it is rejected. \<open>re.split\<close> (line 266) returns an empty piece before leading and behind
  trailing whitespace, and line 267 counts it as a field.
\<close>

theorem crontab_parse_edge_whitespace:
  "number_of_fields (str '' 1 2 3 4'') = 4 \<and>
   process_bind_param (Some (str '' 1 2 3 4'')) =
     Inr (Some [(''minute'', []), (''hour'', str ''1''), (''day_of_week'', str ''2''),
                (''day_of_month'', str ''3''), (''month_of_year'', str ''4'')]) \<and>
   number_of_fields (str ''1 2 3 4 5 '') = 5 \<and>
   process_bind_param (Some (str ''1 2 3 4 5 '')) = Inl ValueError"
proof -
  have s1: "re_split_ws (str '' 1 2 3 4'') = [[], str ''1'', str ''2'', str ''3'', str ''4'']"
    by (simp add: re_split_ws.simps str_def isspace_def)
  have s2: "length (re_split_ws (str ''1 2 3 4 5 '')) = 6"
    by (simp add: re_split_ws.simps str_def isspace_def)
  have n1: "number_of_fields (str '' 1 2 3 4'') = 4"
    by (simp add: number_of_fields_def str_def isspace_def)
  have n2: "number_of_fields (str ''1 2 3 4 5 '') = 5"
    by (simp add: number_of_fields_def str_def isspace_def)
  show ?thesis
    by (simp add: n1 n2 process_bind_param_def s1 s2 dict_zip_keys)
qed




section \<open>Properties of the pool run\<close>

subsection \<open>The loops and the query\<close>

lemma length_set_is_active [simp]: "length (set_is_active b ks gs) = length gs"
  by (induction ks arbitrary: gs) auto

lemma set_is_active_other:
  "k \<notin> set ks \<Longrightarrow> set_is_active b ks gs ! k = gs ! k"
  by (induction ks arbitrary: gs) auto

lemma set_is_active_member:
  "k \<in> set ks \<Longrightarrow> k < length gs \<Longrightarrow> is_active_gen (set_is_active b ks gs ! k) = b"
proof (induction ks arbitrary: gs)
  case Nil
  then show ?case by simp
next
  case (Cons a ks)
  show ?case
  proof (cases "k \<in> set ks")
    case True
    then show ?thesis using Cons by simp
  next
    case False
    then have "a = k" using Cons.prems by simp
    then show ?thesis using False Cons.prems by (simp add: set_is_active_other)
  qed
qed

lemma enabled_generators_set:
  "set (enabled_generators self gs) =
     {k. k < length gs \<and> pool_id (gs ! k) = Some (id_pool self) \<and> enabled (gs ! k)}"
  by (auto simp: enabled_generators_def)

lemma distinct_enabled_generators: "distinct (enabled_generators self gs)"
  by (simp add: enabled_generators_def)

lemma random_choice_member: "random_choice r xs = Inr x \<Longrightarrow> x \<in> set xs"
  by (auto simp: random_choice_def split: if_splits)

lemma random_choice_nonempty: "xs \<noteq> [] \<Longrightarrow> \<exists>x. random_choice r xs = Inr x"
  by (simp add: random_choice_def)

lemma pool_run_self: "fst (snd (pool_run r self gs)) = self"
  by (simp add: pool_run_def Let_def split: sum.splits)

lemma active_among_single:
  assumes "distinct ks" "g \<in> set ks" "\<forall>k \<in> set ks. is_active_gen (gs ! k) \<longleftrightarrow> k = g"
  shows "active_among ks gs = [g]"
  using assms unfolding active_among_def
proof (induction ks)
  case Nil
  then show ?case by simp
next
  case (Cons a ks)
  show ?case
  proof (cases "a = g")
    case True
    then have "filter (\<lambda>k. is_active_gen (gs ! k)) ks = []"
      using Cons.prems by (auto simp: filter_empty_conv)
    then show ?thesis using True Cons.prems by simp
  next
    case False
    then show ?thesis using Cons by auto
  qed
qed

subsection \<open>What the two identity tests decide\<close>

text \<open>
  When \<open>run_scheme\<close> is the very object of the literal \<open>'any'\<close> and some member is
  enabled, the run leaves exactly one enabled member active.
\<close>

lemma pool_run_identical_any:
  assumes "py_is (run_scheme self) lit_any" and "enabled_generators self gs \<noteq> []"
  shows "\<exists>g \<in> set (enabled_generators self gs).
           pool_run r self gs =
             (None, self,
              set_is_active True [g] (set_is_active False (enabled_generators self gs) gs)) \<and>
           active_among (enabled_generators self gs) (snd (snd (pool_run r self gs))) = [g]"
proof -
  let ?E = "enabled_generators self gs"
  obtain g where g: "random_choice r ?E = Inr g"
    using assms(2) random_choice_nonempty by blast
  then have gE: "g \<in> set ?E" by (rule random_choice_member)
  then have glt: "g < length gs" by (simp add: enabled_generators_set)
  have run: "pool_run r self gs = (None, self, set_is_active True [g] (set_is_active False ?E gs))"
    using assms(1) g by (simp add: pool_run_def Let_def)
  have "\<forall>k \<in> set ?E. is_active_gen (set_is_active True [g] (set_is_active False ?E gs) ! k) \<longleftrightarrow> k = g"
  proof
    fix k assume kE: "k \<in> set ?E"
    then have klt: "k < length gs" by (simp add: enabled_generators_set)
    show "is_active_gen (set_is_active True [g] (set_is_active False ?E gs) ! k) \<longleftrightarrow> k = g"
      using kE klt glt by (cases "k = g") (simp_all add: set_is_active_member)
  qed
  then have "active_among ?E (set_is_active True [g] (set_is_active False ?E gs)) = [g]"
    using active_among_single [OF distinct_enabled_generators gE] by blast
  then show ?thesis using run gE by auto
qed

text \<open>
  When \<open>run_scheme\<close> is neither of the two literal objects, whatever its value, the run
  leaves no enabled member active.
\<close>

lemma pool_run_other_object:
  assumes "\<not> py_is (run_scheme self) lit_any" and "\<not> py_is (run_scheme self) lit_all"
  shows "pool_run r self gs = (None, self, set_is_active False (enabled_generators self gs) gs) \<and>
         active_among (enabled_generators self gs) (snd (snd (pool_run r self gs))) = []"
proof -
  let ?E = "enabled_generators self gs"
  have run: "pool_run r self gs = (None, self, set_is_active False ?E gs)"
    using assms by (simp add: pool_run_def Let_def)
  have "\<forall>k \<in> set ?E. \<not> is_active_gen (set_is_active False ?E gs ! k)"
    by (simp add: set_is_active_member enabled_generators_set)
  then have "active_among ?E (set_is_active False ?E gs) = []"
    by (simp add: active_among_def filter_empty_conv)
  then show ?thesis using run by simp
qed

subsection \<open>The claims about the pool run\<close>

text \<open>
  Claim C1 (the code departs from it). The claim: for a pool with scheme ANY and a
  non-empty set of enabled members, the run leaves exactly one of them active. The pool
  \<open>loaded_pool\<close> has the scheme \<open>any\<close>, as the \<open>Choice\<close> object a loaded row holds, and
  three enabled members, all active. Line 402 compares with \<open>is\<close>, the object is not the
  literal, no member is selected, and the run leaves all three inactive.
\<close>

theorem pool_run_any_loaded:
  "scheme_code (obj_val (run_scheme loaded_pool)) = Some ''any'' \<and>
   enabled_generators loaded_pool three_generators = [0, 1, 2] \<and>
   active_among [0, 1, 2] three_generators = [0, 1, 2] \<and>
   pool_run r loaded_pool three_generators =
     (None, loaded_pool,
      [gen0\<lparr>id_gen := 1, is_active_gen := False\<rparr>, gen0\<lparr>id_gen := 2, is_active_gen := False\<rparr>,
       gen0\<lparr>id_gen := 3, is_active_gen := False\<rparr>]) \<and>
   active_among [0, 1, 2] (snd (snd (pool_run r loaded_pool three_generators))) = []"
  by (simp add: pool_run_def enabled_generators_def active_among_def loaded_pool_def
      three_generators_def py_is_def lit_any_def lit_all_def gen0_def upt_rec)

text \<open>
  Claim C7 (the code departs from it). The claim: the run sets the pool's \<open>last_run_at\<close>
  to the current time and increments its \<open>total_run_count\<close> by one. The run assigns to
  no attribute of the pool: whatever the pool, the random draw and the generators, both
  columns are after the run what they were before it (for \<open>loaded_pool\<close>: \<open>None\<close> and 0).
\<close>

theorem pool_run_counters_unchanged:
  "total_run_count_pool (fst (snd (pool_run r self gs))) = total_run_count_pool self \<and>
   last_run_at_pool (fst (snd (pool_run r self gs))) = last_run_at_pool self \<and>
   total_run_count_pool (fst (snd (pool_run r loaded_pool three_generators))) = 0 \<and>
   last_run_at_pool (fst (snd (pool_run r loaded_pool three_generators))) = None"
  by (simp add: pool_run_self) (simp add: loaded_pool_def)

text \<open>
  Claim C10. A pool run never modifies a generator whose \<open>enabled\<close> is false: the row of
  every such generator (its \<open>is_active\<close> flag and every other field) is after the run what
  it was before it, whether the run returns or raises, and the table keeps its length.
\<close>

theorem pool_run_frame:
  assumes "k < length gs" and "\<not> enabled (gs ! k)"
  shows "length (snd (snd (pool_run r self gs))) = length gs \<and>
         snd (snd (pool_run r self gs)) ! k = gs ! k"
proof -
  have k: "k \<notin> set (enabled_generators self gs)"
    using assms by (simp add: enabled_generators_set)
  show ?thesis
  proof (cases "py_is (run_scheme self) lit_any")
    case True
    show ?thesis
    proof (cases "random_choice r (enabled_generators self gs)")
      case (Inl e)
      then show ?thesis using True by (simp add: pool_run_def)
    next
      case (Inr g)
      then have "g \<noteq> k" using k random_choice_member by fastforce
      then show ?thesis using True Inr k
        by (simp add: pool_run_def Let_def set_is_active_other)
    qed
  next
    case False
    then show ?thesis using k
      by (simp add: pool_run_def Let_def set_is_active_other)
  qed
qed

theorem pool_run_frame_witness:
  "1 < length mixed_generators \<and> \<not> enabled (mixed_generators ! 1) \<and>
   length (snd (snd (pool_run 0 (loaded_pool\<lparr>run_scheme := lit_all\<rparr>) mixed_generators))) =
     length mixed_generators \<and>
   snd (snd (pool_run 0 (loaded_pool\<lparr>run_scheme := lit_all\<rparr>) mixed_generators)) ! 1 =
     mixed_generators ! 1"
proof -
  have h1: "1 < length mixed_generators" by (simp add: mixed_generators_def)
  have h2: "\<not> enabled (mixed_generators ! 1)" by (simp add: mixed_generators_def gen0_def)
  show ?thesis
    using h1 h2 pool_run_frame [OF h1 h2, of 0 "loaded_pool\<lparr>run_scheme := lit_all\<rparr>"] by simp
qed

section \<open>Properties of the event listeners\<close>

subsection \<open>The property \<open>active\<close>\<close>

lemma active_eval:
  "active clk self w =
     (if clk (ticks w) < finish_at self then Inl TypeError else Inr False,
      w\<lparr>ticks := Suc (ticks w)\<rparr>)"
  by (simp add: active_def on_start_def timezone_now_def)

lemma active_never_True: "fst (active clk self w) \<noteq> Inr True"
  by (simp add: active_eval)

text \<open>
  Claim C2 (the code departs from it). The claim: \<open>active\<close> is true exactly when
  \<open>is_active\<close> holds and \<open>start_at \<le> t < finish_at\<close>. At time 5 the event \<open>event0\<close>
  (\<open>is_active\<close>, from 0 to 10) satisfies the right-hand side, and the property raises
  \<open>TypeError\<close>: line 97 compares the time with \<open>self.on_start()\<close>, a coroutine object,
  where the start time is meant.
\<close>

theorem event_active_failing:
  "is_active event0 \<and> start_at event0 \<le> clock_at 5 (ticks env0) \<and>
   clock_at 5 (ticks env0) < finish_at event0 \<and>
   fst (active (clock_at 5) event0 env0) = Inl TypeError"
  by (simp add: active_eval event0_def clock_at_def env0_def)

subsection \<open>Scheduling on create\<close>

text \<open>
  Claim C3 (the code departs from it). The claim: an active event whose \<open>start_at\<close> is
  in the future gets its start task scheduled with a delay of \<open>start_at\<close> minus the
  current time, and likewise its finish task. \<open>far_event\<close>, created at time 0, starts in
  86405 seconds and finishes in 172805 seconds; both tasks are sent with a countdown of
  5 seconds, the \<open>seconds\<close> component of the difference (lines 164 and 169).
\<close>

theorem on_event_create_far:
  "on_event_create (clock_at 0) far_event env0 =
     (None,
      far_event\<lparr>on_start_task_id := Some (StrId 0), on_finish_task_id := Some (StrId 1)\<rparr>,
      \<lparr>ticks = 8,
        sent = [\<lparr>task_uuid = 0, task_name = ''on_event_start'', task_args = None, countdown = 5\<rparr>,
                \<lparr>task_uuid = 1, task_name = ''on_event_finish'', task_args = None, countdown = 5\<rparr>],
        revoked = [], next_uuid = 2\<rparr>) \<and>
   total_seconds (start_at far_event - clock_at 0 0) = 86405 \<and>
   total_seconds (finish_at far_event - clock_at 0 0) = 172805"
  by (simp add: on_event_create_def schedule_start_def schedule_finish_def start_in_def
      finish_in_def timezone_now_def apply_async_def truthy_def seconds_def total_seconds_def
      far_event_def event0_def env0_def clock_at_def)

subsection \<open>Events that are inactive or past\<close>

lemma start_in_past:
  "start_at e < clk (ticks w) \<Longrightarrow> start_in clk e w = (None, w\<lparr>ticks := Suc (ticks w)\<rparr>)"
  by (simp add: start_in_def timezone_now_def)

lemma finish_in_past:
  "finish_at e < clk (ticks w) \<Longrightarrow> finish_in clk e w = (None, w\<lparr>ticks := Suc (ticks w)\<rparr>)"
  by (simp add: finish_in_def timezone_now_def)

lemma schedule_start_past:
  "start_at e < clk (ticks w) \<Longrightarrow>
   schedule_start clk e w = (None, e, w\<lparr>ticks := Suc (ticks w)\<rparr>)"
  by (simp add: schedule_start_def start_in_past truthy_def)

lemma schedule_finish_past:
  "finish_at e < clk (ticks w) \<Longrightarrow>
   schedule_finish clk e w = (None, e, w\<lparr>ticks := Suc (ticks w)\<rparr>)"
  by (simp add: schedule_finish_def finish_in_past truthy_def)

text \<open>The two scheduling blocks, run on an event whose times stay in the past.\<close>

lemma schedule_both_past:
  assumes "\<forall>j. ticks w \<le> j \<longrightarrow> start_at e < clk j \<and> finish_at e < clk j"
  shows "(case schedule_start clk e w of
            (Some x, e1, w1) \<Rightarrow> (Some x, e1, w1)
          | (None, e1, w1) \<Rightarrow> schedule_finish clk e1 w1) =
         (None, e, w\<lparr>ticks := Suc (Suc (ticks w))\<rparr>)"
proof -
  have s: "start_at e < clk (ticks w)" using assms by simp
  have f: "finish_at e < clk (ticks (w\<lparr>ticks := Suc (ticks w)\<rparr>))" using assms by simp
  show ?thesis
    using s f
    by (simp add: schedule_start_past [of e clk w]
        schedule_finish_past [of e clk "w\<lparr>ticks := Suc (ticks w)\<rparr>"])
qed

lemma on_event_create_inactive:
  "\<not> is_active e \<Longrightarrow> on_event_create clk e w = (None, e, w)"
  by (simp add: on_event_create_def)

lemma on_event_create_past:
  assumes "\<forall>j. ticks w \<le> j \<longrightarrow> start_at e < clk j \<and> finish_at e < clk j"
  shows "on_event_create clk e w =
           (None, e, if is_active e then w\<lparr>ticks := Suc (Suc (ticks w))\<rparr> else w)"
  using schedule_both_past [OF assms] by (simp add: on_event_create_def)

text \<open>
  The two revocations of an update: they add the ids of the references the event holds,
  start before finish, and raise at the first reference that is a \<open>UUID\<close> object.
\<close>

lemma revoke_StrId: "revoke (StrId n) w = (None, w\<lparr>revoked := revoked w @ [n]\<rparr>)"
  by (simp add: revoke_def)

lemma revoke_UuidId: "revoke (UuidId n) w = (Some TypeError, w\<lparr>revoked := revoked w @ [n]\<rparr>)"
  by (simp add: revoke_def)

lemma on_event_update_uuid:
  assumes "is_uuid (on_start_task_id e) \<or> is_uuid (on_finish_task_id e)"
  shows "fst (on_event_update clk e w) = Some TypeError \<and>
         fst (snd (on_event_update clk e w)) = e \<and>
         sent (snd (snd (on_event_update clk e w))) = sent w"
proof (cases "on_start_task_id e")
  case None
  then obtain m where "on_finish_task_id e = Some (UuidId m)"
    using assms by (cases "on_finish_task_id e" rule: is_uuid.cases) auto
  then show ?thesis using None by (simp add: on_event_update_def revoke_UuidId)
next
  case (Some a)
  show ?thesis
  proof (cases a)
    case (UuidId n)
    then show ?thesis using Some by (simp add: on_event_update_def revoke_UuidId)
  next
    case (StrId n)
    then obtain m where "on_finish_task_id e = Some (UuidId m)"
      using assms Some by (cases "on_finish_task_id e" rule: is_uuid.cases) auto
    then show ?thesis using Some StrId
      by (simp add: on_event_update_def revoke_StrId revoke_UuidId)
  qed
qed

lemma on_event_update_str:
  assumes "\<not> is_uuid (on_start_task_id e)" and "\<not> is_uuid (on_finish_task_id e)"
  shows "on_event_update clk e w =
           (if \<not> is_active e then (None, e, w\<lparr>revoked := revoked w @ ref_ids e\<rparr>)
            else case schedule_start clk e (w\<lparr>revoked := revoked w @ ref_ids e\<rparr>) of
                   (Some x, e1, w1) \<Rightarrow> (Some x, e1, w1)
                 | (None, e1, w1) \<Rightarrow> schedule_finish clk e1 w1)"
proof -
  have a: "on_start_task_id e = None \<or> (\<exists>n. on_start_task_id e = Some (StrId n))"
    using assms(1) by (cases "on_start_task_id e" rule: is_uuid.cases) auto
  have b: "on_finish_task_id e = None \<or> (\<exists>n. on_finish_task_id e = Some (StrId n))"
    using assms(2) by (cases "on_finish_task_id e" rule: is_uuid.cases) auto
  from a b show ?thesis
    by (auto simp: on_event_update_def revoke_StrId ref_ids_def)
qed

text \<open>
  Claim C9, as amended. Let an event be inactive, or let both its times be in the past
  at every reading of the clock from the start of the operation on. A create of the
  event completes, sends and revokes nothing and leaves the event as it was. An update
  leaves the event as it was and sends nothing; it completes exactly when neither
  reference holds a \<open>UUID\<close> object (otherwise a revocation raises \<open>TypeError\<close>), and a
  completed update has revoked exactly the tasks the references name. So after either
  operation both references hold what they held before it: they are empty after the
  create of an event that had none, and after an update they still hold the ids of the
  tasks the update has just revoked.
\<close>

theorem event_refs_kept:
  assumes "\<not> is_active e \<or>
           (\<forall>j. ticks w \<le> j \<longrightarrow> start_at e < clk j \<and> finish_at e < clk j)"
  shows "fst (on_event_create clk e w) = None \<and>
         fst (snd (on_event_create clk e w)) = e \<and>
         sent (snd (snd (on_event_create clk e w))) = sent w \<and>
         revoked (snd (snd (on_event_create clk e w))) = revoked w \<and>
         fst (snd (on_event_update clk e w)) = e \<and>
         sent (snd (snd (on_event_update clk e w))) = sent w \<and>
         (fst (on_event_update clk e w) = None \<longleftrightarrow>
            \<not> is_uuid (on_start_task_id e) \<and> \<not> is_uuid (on_finish_task_id e)) \<and>
         (fst (on_event_update clk e w) = None \<longrightarrow>
            revoked (snd (snd (on_event_update clk e w))) = revoked w @ ref_ids e)"
proof -
  have create: "fst (on_event_create clk e w) = None \<and>
         fst (snd (on_event_create clk e w)) = e \<and>
         sent (snd (snd (on_event_create clk e w))) = sent w \<and>
         revoked (snd (snd (on_event_create clk e w))) = revoked w"
  proof (cases "is_active e")
    case False
    then show ?thesis by (simp add: on_event_create_inactive)
  next
    case True
    then have "\<forall>j. ticks w \<le> j \<longrightarrow> start_at e < clk j \<and> finish_at e < clk j"
      using assms by simp
    then show ?thesis by (simp add: on_event_create_past)
  qed
  have update: "fst (snd (on_event_update clk e w)) = e \<and>
         sent (snd (snd (on_event_update clk e w))) = sent w \<and>
         (fst (on_event_update clk e w) = None \<longleftrightarrow>
            \<not> is_uuid (on_start_task_id e) \<and> \<not> is_uuid (on_finish_task_id e)) \<and>
         (fst (on_event_update clk e w) = None \<longrightarrow>
            revoked (snd (snd (on_event_update clk e w))) = revoked w @ ref_ids e)"
  proof (cases "is_uuid (on_start_task_id e) \<or> is_uuid (on_finish_task_id e)")
    case True
    from on_event_update_uuid [OF True, of clk w] True show ?thesis by auto
  next
    case False
    then have str: "\<not> is_uuid (on_start_task_id e)" "\<not> is_uuid (on_finish_task_id e)"
      by simp_all
    show ?thesis
    proof (cases "is_active e")
      case False
      then show ?thesis using str by (simp add: on_event_update_str)
    next
      case True
      then have "\<forall>j. ticks (w\<lparr>revoked := revoked w @ ref_ids e\<rparr>) \<le> j \<longrightarrow>
                     start_at e < clk j \<and> finish_at e < clk j"
        using assms by simp
      from schedule_both_past [OF this] show ?thesis
        using True str by (simp add: on_event_update_str)
    qed
  qed
  from create update show ?thesis by simp
qed

theorem event_refs_kept_witness:
  "\<not> is_active stopped_event \<and>
   fst (on_event_update (clock_at 0) stopped_event env_scheduled) = None \<and>
   fst (snd (on_event_update (clock_at 0) stopped_event env_scheduled)) = stopped_event \<and>
   sent (snd (snd (on_event_update (clock_at 0) stopped_event env_scheduled))) =
     sent env_scheduled \<and>
   revoked (snd (snd (on_event_update (clock_at 0) stopped_event env_scheduled))) = [0, 1] \<and>
   is_active event0 \<and> start_at event0 < clock_at 50 0 \<and> finish_at event0 < clock_at 50 0 \<and>
   fst (on_event_create (clock_at 50) event0 env0) = None \<and>
   fst (snd (on_event_create (clock_at 50) event0 env0)) = event0 \<and>
   on_start_task_id (fst (snd (on_event_create (clock_at 50) event0 env0))) = None \<and>
   on_finish_task_id (fst (snd (on_event_create (clock_at 50) event0 env0))) = None \<and>
   sent (snd (snd (on_event_create (clock_at 50) event0 env0))) = []"
proof -
  have h1: "\<not> is_active stopped_event \<or>
            (\<forall>j. ticks env_scheduled \<le> j \<longrightarrow>
               start_at stopped_event < clock_at 0 j \<and> finish_at stopped_event < clock_at 0 j)"
    by (simp add: stopped_event_def)
  have h2: "\<not> is_active event0 \<or>
            (\<forall>j. ticks env0 \<le> j \<longrightarrow>
               start_at event0 < clock_at 50 j \<and> finish_at event0 < clock_at 50 j)"
    by (simp add: event0_def clock_at_def)
  have facts: "\<not> is_active stopped_event" "\<not> is_uuid (on_start_task_id stopped_event)"
    "\<not> is_uuid (on_finish_task_id stopped_event)" "ref_ids stopped_event = [0, 1]"
    "revoked env_scheduled = []" "is_active event0" "start_at event0 < clock_at 50 0"
    "finish_at event0 < clock_at 50 0" "on_start_task_id event0 = None"
    "on_finish_task_id event0 = None" "sent env0 = []"
    by (simp_all add: stopped_event_def far_event_def event0_def ref_ids_def env_scheduled_def
        env0_def clock_at_def)
  show ?thesis
    using event_refs_kept [OF h1] event_refs_kept [OF h2] facts by simp
qed

text \<open>
  The claim as the specification words it fails on an update: \<open>far_event\<close> is created
  at time 0, which stores the ids 0 and 1 of its two tasks, as the \<open>str\<close> values
  \<open>apply_async\<close> returned. It is then made inactive and updated: \<open>stopped_event\<close>. The
  update revokes both tasks and completes, the event is inactive, and both references
  still hold the ids.
\<close>

theorem event_refs_counterexample:
  "on_event_create (clock_at 0) far_event env0 =
     (None,
      far_event\<lparr>on_start_task_id := Some (StrId 0), on_finish_task_id := Some (StrId 1)\<rparr>,
      env_scheduled) \<and>
   stopped_event =
     far_event\<lparr>on_start_task_id := Some (StrId 0), on_finish_task_id := Some (StrId 1),
               is_active := False\<rparr> \<and>
   on_event_update (clock_at 0) stopped_event env_scheduled =
     (None, stopped_event, env_scheduled\<lparr>revoked := [0, 1]\<rparr>) \<and>
   \<not> is_active stopped_event \<and>
   on_start_task_id stopped_event = Some (StrId 0) \<and>
   on_finish_task_id stopped_event = Some (StrId 1)"
  by (simp add: on_event_create_def on_event_update_def schedule_start_def schedule_finish_def
      start_in_def finish_in_def timezone_now_def apply_async_def revoke_def truthy_def
      seconds_def stopped_event_def far_event_def event0_def env0_def env_scheduled_def
      clock_at_def)

section \<open>Properties of the generator handler\<close>

subsection \<open>The listener and the insert leave the generator table alone\<close>

lemma query_get_Some:
  assumes "query_get i gs = Some k"
  shows "k < length gs \<and> id_gen (gs ! k) = i"
proof -
  from assms obtain ks where "filter (\<lambda>k. id_gen (gs ! k) = i) [0..<length gs] = k # ks"
    by (auto simp: query_get_def split: list.splits)
  then have "k \<in> set (filter (\<lambda>k. id_gen (gs ! k) = i) [0..<length gs])" by simp
  then show ?thesis by simp
qed

lemma start_in_world:
  "generators (snd (start_in clk e w)) = generators w \<and>
   events (snd (start_in clk e w)) = events w"
  by (simp add: start_in_def timezone_now_def)

lemma finish_in_world:
  "generators (snd (finish_in clk e w)) = generators w \<and>
   events (snd (finish_in clk e w)) = events w"
  by (simp add: finish_in_def timezone_now_def)

lemma schedule_start_world:
  "generators (snd (snd (schedule_start clk e w))) = generators w \<and>
   events (snd (snd (schedule_start clk e w))) = events w \<and>
   name_ev (fst (snd (schedule_start clk e w))) = name_ev e"
proof -
  obtain d1 w1 where s1: "start_in clk e w = (d1, w1)" by (cases "start_in clk e w")
  obtain d2 w2 where s2: "start_in clk e w1 = (d2, w2)" by (cases "start_in clk e w1")
  have g1: "generators w1 = generators w" "events w1 = events w"
    using start_in_world [of clk e w] s1 by simp_all
  have g2: "generators w2 = generators w" "events w2 = events w"
    using start_in_world [of clk e w1] s2 g1 by simp_all
  show ?thesis
  proof (cases "truthy d1")
    case False
    then show ?thesis using s1 g1 by (simp add: schedule_start_def)
  next
    case True
    show ?thesis
    proof (cases d2)
      case None
      then show ?thesis using True s1 s2 g2 by (simp add: schedule_start_def)
    next
      case (Some d)
      then show ?thesis using True s1 s2 g2
        by (simp add: schedule_start_def apply_async_def)
    qed
  qed
qed

lemma schedule_finish_world:
  "generators (snd (snd (schedule_finish clk e w))) = generators w \<and>
   events (snd (snd (schedule_finish clk e w))) = events w \<and>
   name_ev (fst (snd (schedule_finish clk e w))) = name_ev e"
proof -
  obtain d1 w1 where s1: "finish_in clk e w = (d1, w1)" by (cases "finish_in clk e w")
  obtain d2 w2 where s2: "finish_in clk e w1 = (d2, w2)" by (cases "finish_in clk e w1")
  have g1: "generators w1 = generators w" "events w1 = events w"
    using finish_in_world [of clk e w] s1 by simp_all
  have g2: "generators w2 = generators w" "events w2 = events w"
    using finish_in_world [of clk e w1] s2 g1 by simp_all
  show ?thesis
  proof (cases "truthy d1")
    case False
    then show ?thesis using s1 g1 by (simp add: schedule_finish_def)
  next
    case True
    show ?thesis
    proof (cases d2)
      case None
      then show ?thesis using True s1 s2 g2 by (simp add: schedule_finish_def)
    next
      case (Some d)
      then show ?thesis using True s1 s2 g2
        by (simp add: schedule_finish_def apply_async_def)
    qed
  qed
qed

lemma on_event_create_world:
  "generators (snd (snd (on_event_create clk e w))) = generators w \<and>
   events (snd (snd (on_event_create clk e w))) = events w \<and>
   name_ev (fst (snd (on_event_create clk e w))) = name_ev e"
proof (cases "is_active e")
  case False
  then show ?thesis by (simp add: on_event_create_def)
next
  case True
  obtain r1 e1 w1 where s: "schedule_start clk e w = (r1, e1, w1)"
    by (cases "schedule_start clk e w") auto
  from schedule_start_world [of clk e w] s
  have w1: "generators w1 = generators w" "events w1 = events w"
    and e1: "name_ev e1 = name_ev e" by simp_all
  show ?thesis
  proof (cases r1)
    case (Some err)
    then show ?thesis using True s w1 e1 by (simp add: on_event_create_def)
  next
    case None
    obtain r2 e2 w2 where f: "schedule_finish clk e1 w1 = (r2, e2, w2)"
      by (cases "schedule_finish clk e1 w1") auto
    from schedule_finish_world [of clk e1 w1] f
    have "generators w2 = generators w" "events w2 = events w" "name_ev e2 = name_ev e"
      using w1 e1 by simp_all
    then show ?thesis using True s None f by (simp add: on_event_create_def)
  qed
qed

text \<open>An insert without a name stores no row, whatever the listener did before.\<close>

lemma Event_create_unnamed:
  assumes "name_ev kw = None"
  shows "generators (snd (Event_create clk kw w)) = generators w \<and>
         events (snd (Event_create clk kw w)) = events w \<and>
         fst (Event_create clk kw w) \<noteq> None"
proof -
  obtain r e1 w1 where s: "on_event_create clk kw w = (r, e1, w1)"
    by (cases "on_event_create clk kw w") auto
  from on_event_create_world [of clk kw w] s assms
  have w1: "generators w1 = generators w" "events w1 = events w"
    and e1: "name_ev e1 = None" by simp_all
  show ?thesis
  proof (cases r)
    case (Some err)
    then show ?thesis using s w1 by (simp add: Event_create_def)
  next
    case None
    then show ?thesis using s w1 e1 by (simp add: Event_create_def timezone_now_def)
  qed
qed

subsection \<open>What a run does\<close>

text \<open>
  A run stamps and counts, saves the generator, and then fails to insert the event: the
  keyword arguments of line 312 carry no name.
\<close>

lemma generator_run_effect:
  "generators (snd (generator_run clk k act w)) =
     (generators w)[k := (generators w ! k)\<lparr>last_run_at_gen := Some (clk (ticks w)),
        total_run_count_gen := total_run_count_gen (generators w ! k) + 1\<rparr>] \<and>
   events (snd (generator_run clk k act w)) = events w \<and>
   fst (generator_run clk k act w) \<noteq> None"
proof -
  define g where "g = (generators w ! k)\<lparr>last_run_at_gen := Some (clk (ticks w)),
        total_run_count_gen := total_run_count_gen (generators w ! k) + 1\<rparr>"
  define w2 where "w2 = w\<lparr>ticks := Suc (ticks w), generators := (generators w)[k := g]\<rparr>"
  define kw where "kw = \<lparr>id_ev = None, name_ev = None, category_id_ev = category_id_gen g,
                    generator_id = Some (id_gen g), created_at = None,
                    start_at = start_at_gen g, finish_at = finish_at_gen g,
                    payload = payload_gen g, is_active = act,
                    on_start_task_id = None, on_finish_task_id = None\<rparr>"
  have run: "generator_run clk k act w = Event_create clk kw w2"
    by (simp add: generator_run_def timezone_now_def Let_def g_def w2_def kw_def)
  have ev: "events w2 = events w" and gs: "generators w2 = (generators w)[k := g]"
    by (simp_all add: w2_def)
  have "name_ev kw = None" by (simp add: kw_def)
  from Event_create_unnamed [OF this, of clk w2] show ?thesis
    by (simp add: run ev gs g_def)
qed

subsection \<open>The claim about the handler\<close>

text \<open>
  Claim C8, as amended. Firing the handler creates no event, for a generator whose
  \<open>enabled\<close> is false as for any other. It leaves everything as it was only when no
  generator has the id. For an existing generator the handler does not look at
  \<open>enabled\<close>: it calls \<open>run\<close>, the generator's \<open>last_run_at\<close> becomes the current time
  and its \<open>total_run_count\<close> grows by exactly one, and no other generator changes.
\<close>

theorem events_generator_run_effect:
  "events (snd (events_generator_run clk i w)) = events w \<and>
   (query_get i (generators w) = None \<longrightarrow> events_generator_run clk i w = (None, w)) \<and>
   (\<forall>k. query_get i (generators w) = Some k \<longrightarrow>
      k < length (generators w) \<and> id_gen (generators w ! k) = i \<and>
      generators (snd (events_generator_run clk i w)) =
        (generators w)[k := (generators w ! k)\<lparr>last_run_at_gen := Some (clk (ticks w)),
           total_run_count_gen := total_run_count_gen (generators w ! k) + 1\<rparr>])"
proof (cases "query_get i (generators w)")
  case None
  then show ?thesis by (simp add: events_generator_run_def)
next
  case (Some k)
  then have run: "events_generator_run clk i w = generator_run clk k True w"
    by (simp add: events_generator_run_def)
  from Some have "k < length (generators w) \<and> id_gen (generators w ! k) = i"
    by (rule query_get_Some)
  then show ?thesis
    using Some generator_run_effect [of clk k True w] by (simp add: run)
qed

theorem events_generator_run_effect_witness:
  "query_get 2 (generators disabled_world) = None \<and>
   events_generator_run (clock_at 5) 2 disabled_world = (None, disabled_world) \<and>
   query_get 1 (generators disabled_world) = Some 0 \<and>
   \<not> enabled (generators disabled_world ! 0) \<and>
   events (snd (events_generator_run (clock_at 5) 1 disabled_world)) = [] \<and>
   generators (snd (events_generator_run (clock_at 5) 1 disabled_world)) =
     [gen0\<lparr>id_gen := 1, pool_id := None, enabled := False, start_at_gen := 10000000,
           finish_at_gen := 20000000, last_run_at_gen := Some 5, total_run_count_gen := 1\<rparr>]"
proof -
  have q2: "query_get 2 (generators disabled_world) = None"
    by (simp add: query_get_def disabled_world_def gen0_def)
  have q1: "query_get 1 (generators disabled_world) = Some 0"
    by (simp add: query_get_def disabled_world_def gen0_def)
  have d: "generators disabled_world =
             [gen0\<lparr>id_gen := 1, pool_id := None, enabled := False,
                   start_at_gen := 10000000, finish_at_gen := 20000000\<rparr>]"
    "events disabled_world = []" "ticks disabled_world = 0"
    by (simp_all add: disabled_world_def)
  from events_generator_run_effect [of "clock_at 5" 2 disabled_world] q2
  have a: "events_generator_run (clock_at 5) 2 disabled_world = (None, disabled_world)"
    by simp
  from events_generator_run_effect [of "clock_at 5" 1 disabled_world] q1
  have b: "events (snd (events_generator_run (clock_at 5) 1 disabled_world)) =
             events disabled_world"
    and c: "generators (snd (events_generator_run (clock_at 5) 1 disabled_world)) =
        (generators disabled_world)[0 := (generators disabled_world ! 0)
           \<lparr>last_run_at_gen := Some (clock_at 5 (ticks disabled_world)),
            total_run_count_gen := total_run_count_gen (generators disabled_world ! 0) + 1\<rparr>]"
    by simp_all
  from c have c': "generators (snd (events_generator_run (clock_at 5) 1 disabled_world)) =
     [gen0\<lparr>id_gen := 1, pool_id := None, enabled := False, start_at_gen := 10000000,
           finish_at_gen := 20000000, last_run_at_gen := Some 5, total_run_count_gen := 1\<rparr>]"
    by (simp add: d clock_at_def gen0_def)
  have e: "\<not> enabled (generators disabled_world ! 0)" by (simp add: d)
  show ?thesis using q1 q2 a b c' e by (simp add: d)
qed

text \<open>
  The claim as the specification words it fails on \<open>disabled_world\<close>: its generator with
  id 1 has \<open>enabled = False\<close> and has never run. Firing the handler for id 1 at time 5
  leaves its \<open>total_run_count\<close> at 1 and its \<open>last_run_at\<close> at 5.
\<close>

theorem events_generator_run_counterexample:
  "\<not> enabled (generators disabled_world ! 0) \<and>
   id_gen (generators disabled_world ! 0) = 1 \<and>
   total_run_count_gen (generators disabled_world ! 0) = 0 \<and>
   last_run_at_gen (generators disabled_world ! 0) = None \<and>
   total_run_count_gen
     (generators (snd (events_generator_run (clock_at 5) 1 disabled_world)) ! 0) = 1 \<and>
   last_run_at_gen
     (generators (snd (events_generator_run (clock_at 5) 1 disabled_world)) ! 0) = Some 5"
  by (simp add: events_generator_run_def query_get_def generator_run_def Event_create_def
      on_event_create_def schedule_start_def schedule_finish_def start_in_def finish_in_def
      timezone_now_def apply_async_def truthy_def seconds_def disabled_world_def gen0_def
      clock_at_def Let_def)

end
